theory Spec2Isabelle
  imports Main "HOL-Library.Word"
begin

section \<open>JavaScript strings\<close>

text \<open>
  A JavaScript string is a sequence of UTF-16 code units. The functions below are the
  string operations that \<^verbatim>\<open>Markdown.tsx\<close> calls: \<^verbatim>\<open>includes\<close>, \<^verbatim>\<open>split\<close>,
  \<^verbatim>\<open>join\<close>, \<^verbatim>\<open>findIndex\<close>, \<^verbatim>\<open>trim\<close> and the three regular expressions of the file.
\<close>

type_synonym code_unit = "16 word"
type_synonym jsstring = "code_unit list"

definition js :: "string \<Rightarrow> jsstring" where
  \<comment> \<open>an ASCII literal of the source as code units\<close>
  "js s = map of_char s"

fun startsWith :: "'a list \<Rightarrow> 'a list \<Rightarrow> bool" where
  "startsWith s [] = True"
| "startsWith [] (p # ps) = False"
| "startsWith (c # cs) (p # ps) = (c = p \<and> startsWith cs ps)"

fun includes_str :: "'a list \<Rightarrow> 'a list \<Rightarrow> bool" where
  \<comment> \<open>\<^verbatim>\<open>s.includes(sub)\<close>: \<^verbatim>\<open>sub\<close> occurs in \<^verbatim>\<open>s\<close> at some position\<close>
  "includes_str [] sub = (sub = [])"
| "includes_str (c # cs) sub = (startsWith (c # cs) sub \<or> includes_str cs sub)"

fun split_on :: "'a \<Rightarrow> 'a list \<Rightarrow> 'a list list" where
  \<comment> \<open>\<^verbatim>\<open>s.split(sep)\<close> for a separator of one code unit; \<^verbatim>\<open>''.split(sep)\<close> is \<^verbatim>\<open>['']\<close>\<close>
  "split_on sep [] = [[]]"
| "split_on sep (c # cs) =
     (let r = split_on sep cs
      in if c = sep then [] # r else (c # hd r) # tl r)"

fun join_with :: "'a \<Rightarrow> 'a list list \<Rightarrow> 'a list" where
  \<comment> \<open>\<^verbatim>\<open>lines.join(sep)\<close> for a separator of one code unit\<close>
  "join_with sep [] = []"
| "join_with sep [l] = l"
| "join_with sep (l # m # ls) = l @ sep # join_with sep (m # ls)"

fun findIndex :: "('a \<Rightarrow> bool) \<Rightarrow> 'a list \<Rightarrow> nat option" where
  \<comment> \<open>\<^verbatim>\<open>xs.findIndex(p)\<close>; \<open>None\<close> stands for the result \<^verbatim>\<open>-1\<close>\<close>
  "findIndex P [] = None"
| "findIndex P (x # xs) = (if P x then Some 0 else map_option Suc (findIndex P xs))"

definition is_white_space :: "code_unit \<Rightarrow> bool" where
  \<comment> \<open>the code units \<^verbatim>\<open>String.prototype.trim\<close> removes: WhiteSpace and LineTerminator\<close>
  "is_white_space c \<longleftrightarrow>
     c \<in> set [0x09, 0x0A, 0x0B, 0x0C, 0x0D, 0x20, 0xA0, 0x1680, 0x2028, 0x2029,
              0x202F, 0x205F, 0x3000, 0xFEFF]
     \<or> (0x2000 \<le> c \<and> c \<le> 0x200A)"

definition trim :: "jsstring \<Rightarrow> jsstring" where
  "trim s = rev (dropWhile is_white_space (rev (dropWhile is_white_space s)))"

definition is_word_char :: "code_unit \<Rightarrow> bool" where
  \<comment> \<open>the class \<^verbatim>\<open>\w\<close> of a regular expression without flags: \<^verbatim>\<open>[A-Za-z0-9_]\<close>\<close>
  "is_word_char c \<longleftrightarrow>
     (0x30 \<le> c \<and> c \<le> 0x39) \<or> (0x41 \<le> c \<and> c \<le> 0x5A) \<or> c = 0x5F
     \<or> (0x61 \<le> c \<and> c \<le> 0x7A)"

definition newline :: code_unit where
  "newline = 0x0A"

definition backticks :: jsstring where
  \<comment> \<open>the three backquotes of a code fence\<close>
  "backticks = [0x60, 0x60, 0x60]"

definition match_open_fence :: "jsstring \<Rightarrow> bool" where
  \<comment> \<open>\<^verbatim>\<open>s.match(/^```\w*$/)\<close> is not null\<close>
  "match_open_fence s \<longleftrightarrow> take 3 s = backticks \<and> list_all is_word_char (drop 3 s)"

definition match_close_fence :: "jsstring \<Rightarrow> bool" where
  \<comment> \<open>\<^verbatim>\<open>s.match(/^```$/)\<close> is not null\<close>
  "match_close_fence s \<longleftrightarrow> s = backticks"

section \<open>stripCodeFenceFromArtifact\<close>

definition artifact_marker :: jsstring where
  "artifact_marker = js ''__boltArtifact__''"

definition is_artifact_line :: "jsstring \<Rightarrow> bool" where
  \<comment> \<open>the callback of \<^verbatim>\<open>findIndex\<close>: \<^verbatim>\<open>(line) => line.includes('__boltArtifact__')\<close>\<close>
  "is_artifact_line line = includes_str line artifact_marker"

definition clear_open_fence :: "nat \<Rightarrow> jsstring list \<Rightarrow> jsstring list" where
  \<comment> \<open>the first \<^verbatim>\<open>if\<close> after the index is found; the read at \<open>i - 1\<close> is in range
      under the guard \<open>0 < i\<close>, for \<open>i\<close> an index of \<open>lines\<close>\<close>
  "clear_open_fence i lines =
     (if 0 < i \<and> match_open_fence (trim (lines ! (i - 1)))
      then lines[i - 1 := []] else lines)"

definition clear_close_fence :: "nat \<Rightarrow> jsstring list \<Rightarrow> jsstring list" where
  \<comment> \<open>the second \<^verbatim>\<open>if\<close>; the guard \<^verbatim>\<open>artifactLineIndex < lines.length - 1\<close> keeps the
      read at \<open>i + 1\<close> in range (both sides are integers of JavaScript, so the
      guard is written without subtraction)\<close>
  "clear_close_fence i lines =
     (if i + 1 < length lines \<and> match_close_fence (trim (lines ! (i + 1)))
      then lines[i + 1 := []] else lines)"

definition stripCodeFenceFromArtifact :: "jsstring \<Rightarrow> jsstring" where
  "stripCodeFenceFromArtifact content =
     (if content = [] \<or> \<not> includes_str content artifact_marker then content
      else
        let lines = split_on newline content
        in case findIndex is_artifact_line lines of
             None \<Rightarrow> content
           | Some artifactLineIndex \<Rightarrow>
               join_with newline
                 (clear_close_fence artifactLineIndex
                    (clear_open_fence artifactLineIndex lines)))"

definition fenced_artifact_example :: jsstring where
  \<comment> \<open>a document of five lines: an artifact line between an opening and a closing fence\<close>
  "fenced_artifact_example =
     js ''Here is the project:'' @ [newline]
     @ js ''```html'' @ [newline]
     @ js ''<div class=__boltArtifact__ data-message-id=m1></div>'' @ [newline]
     @ js ''  ```'' @ [newline]
     @ js ''Done.''"

section \<open>Rendered-markdown nodes\<close>

text \<open>
  The markdown pipeline hands every renderer override the node of the parsed tree it
  renders. A node is an element (tag name, properties, children), a text, a comment or
  a raw node. A property value is undefined, null, a boolean, a string or an array of
  strings (numbers are left out: the attributes read here come from the markup as
  strings, and class names as an array of strings).
\<close>

datatype prop_value =
  PUndefined | PNull | PBool bool | PString jsstring | PStrings "jsstring list"

type_synonym properties = "jsstring \<rightharpoonup> prop_value"

datatype hast_node =
  Element jsstring properties "hast_node list"
| Text jsstring
| Comment jsstring
| Raw jsstring

datatype js_error = TypeError

definition get_prop :: "properties \<Rightarrow> jsstring \<Rightarrow> prop_value" where
  \<comment> \<open>\<^verbatim>\<open>props[key]\<close>: a missing key reads as \<^verbatim>\<open>undefined\<close>\<close>
  "get_prop props key = (case props key of None \<Rightarrow> PUndefined | Some v \<Rightarrow> v)"

definition comma :: code_unit where
  "comma = 0x2C"

fun to_String :: "prop_value \<Rightarrow> jsstring" where
  \<comment> \<open>\<^verbatim>\<open>String(v)\<close>, also what a template literal inserts for \<^verbatim>\<open>${v}\<close>; an array
      is joined with commas\<close>
  "to_String PUndefined = js ''undefined''"
| "to_String PNull = js ''null''"
| "to_String (PBool b) = (if b then js ''true'' else js ''false'')"
| "to_String (PString s) = s"
| "to_String (PStrings ss) = join_with comma ss"

fun truthy :: "prop_value \<Rightarrow> bool" where
  "truthy PUndefined = False"
| "truthy PNull = False"
| "truthy (PBool b) = b"
| "truthy (PString s) = (s \<noteq> [])"
| "truthy (PStrings ss) = True"

definition js_or :: "prop_value \<Rightarrow> prop_value \<Rightarrow> prop_value" where
  \<comment> \<open>\<^verbatim>\<open>a || b\<close>\<close>
  "js_or a b = (if truthy a then a else b)"

section \<open>The pre override: code block extraction\<close>

fun exec_language :: "jsstring \<Rightarrow> jsstring option" where
  \<comment> \<open>\<^verbatim>\<open>/language-(\w+)/.exec(s)\<close>: the first capture group of the leftmost match,
      \<open>None\<close> when \<^verbatim>\<open>exec\<close> returns null. At a position the match needs
      \<^verbatim>\<open>language-\<close> and at least one word character after it; the group then takes
      every word character that follows.\<close>
  "exec_language [] = None"
| "exec_language (c # cs) =
     (if startsWith (c # cs) (js ''language-'')
         \<and> (case drop 9 (c # cs) of [] \<Rightarrow> False | d # ds \<Rightarrow> is_word_char d)
      then Some (takeWhile is_word_char (drop 9 (c # cs)))
      else exec_language cs)"

definition extract_language :: "prop_value \<Rightarrow> jsstring" where
  \<comment> \<open>\<^verbatim>\<open>const [, language = 'plaintext'] = /language-(\w+)/.exec(String(className) || '') ?? []\<close>\<close>
  "extract_language className =
     (let s = to_String className;
          subject = (if s \<noteq> [] then s else [])
      in case exec_language subject of
           None \<Rightarrow> js ''plaintext''
         | Some language \<Rightarrow> language)"

datatype ('p, 'c) pre_output =
  CodeBlock properties
    \<comment> \<open>the code block component with the props object it is given\<close>
| PreElement 'p 'c
    \<comment> \<open>\<^verbatim>\<open><pre {...rest}>{children}</pre>\<close>\<close>

definition node_children :: "hast_node option \<Rightarrow> hast_node list" where
  \<comment> \<open>\<^verbatim>\<open>node?.children ?? []\<close>\<close>
  "node_children node =
     (case node of Some (Element tagName props cs) \<Rightarrow> cs | _ \<Rightarrow> [])"

definition components_pre ::
    "'c \<Rightarrow> hast_node option \<Rightarrow> 'p \<Rightarrow> js_error + ('p, 'c) pre_output" where
  \<comment> \<open>\<^verbatim>\<open>pre: (props) => ...\<close> with \<^verbatim>\<open>const { children, node, ...rest } = props\<close>.
      Reading \<^verbatim>\<open>.type\<close> of \<^verbatim>\<open>firstChild.children[0]\<close> throws a TypeError when the
      code element has no children. In
      \<^verbatim>\<open><CodeBlock code={...} language={...} {...rest} />\<close> the spread of the remaining
      properties of the code element comes last: a property named \<^verbatim>\<open>code\<close> or
      \<^verbatim>\<open>language\<close> among them replaces the attribute written before it.\<close>
  "components_pre children node rest =
     (case node_children node of
        Element tagName props code_children # others \<Rightarrow>
          if tagName = js ''code'' then
            (case code_children of
               [] \<Rightarrow> Inl TypeError
             | Text v # later \<Rightarrow>
                 Inr (CodeBlock
                        ([js ''code'' \<mapsto> PString v,
                          js ''language'' \<mapsto>
                            PString (extract_language (get_prop props (js ''className'')))]
                         ++ props(js ''className'' := None)))
             | other # later \<Rightarrow> Inr (PreElement rest children))
          else Inr (PreElement rest children)
      | _ \<Rightarrow> Inr (PreElement rest children))"

section \<open>The button override: quick actions\<close>

definition quick_action_marker :: jsstring where
  "quick_action_marker = js ''__boltQuickAction__''"

definition is_quick_action :: "properties option \<Rightarrow> bool" where
  \<comment> \<open>\<^verbatim>\<open>dataProps?.class?.toString().includes('__boltQuickAction__') ||
      dataProps?.dataBoltQuickAction === 'true'\<close>\<close>
  "is_quick_action dataProps =
     (case dataProps of
        None \<Rightarrow> False
      | Some dp \<Rightarrow>
          (case get_prop dp (js ''class'') of
             PUndefined \<Rightarrow> False
           | PNull \<Rightarrow> False
           | v \<Rightarrow> includes_str (to_String v) quick_action_marker)
          \<or> get_prop dp (js ''dataBoltQuickAction'') = PString (js ''true''))"

definition object_prototype_members :: "jsstring list" where
  \<comment> \<open>the property names every object literal inherits from \<^verbatim>\<open>Object.prototype\<close>\<close>
  "object_prototype_members =
     [js ''constructor'', js ''hasOwnProperty'', js ''isPrototypeOf'',
      js ''propertyIsEnumerable'', js ''toLocaleString'', js ''toString'', js ''valueOf'',
      js ''__proto__'', js ''__defineGetter__'', js ''__defineSetter__'',
      js ''__lookupGetter__'', js ''__lookupSetter__'']"

datatype icon_value =
  IconString jsstring
    \<comment> \<open>a string, as the lookup table holds them\<close>
| InheritedMember jsstring
    \<comment> \<open>the member of \<^verbatim>\<open>Object.prototype\<close> of that name: a function or an object,
        not a string\<close>

definition iconClassMap :: "jsstring \<Rightarrow> icon_value option" where
  \<comment> \<open>\<^verbatim>\<open>iconClassMap[key]\<close> on the object literal of the source: its four own
      properties, then the prototype chain; \<open>None\<close> is \<^verbatim>\<open>undefined\<close>\<close>
  "iconClassMap key =
     (if key = js ''file'' then Some (IconString (js ''i-ph:file''))
      else if key = js ''message'' then Some (IconString (js ''i-ph:chats''))
      else if key = js ''implement'' then Some (IconString (js ''i-ph:code''))
      else if key = js ''link'' then Some (IconString (js ''i-ph:link''))
      else if key \<in> set object_prototype_members then Some (InheritedMember key)
      else None)"

definition safeType :: "prop_value \<Rightarrow> jsstring" where
  \<comment> \<open>\<^verbatim>\<open>typeof type === 'string' ? type : ''\<close>\<close>
  "safeType type = (case type of PString s \<Rightarrow> s | _ \<Rightarrow> [])"

definition iconClass :: "prop_value \<Rightarrow> icon_value" where
  \<comment> \<open>\<^verbatim>\<open>iconClassMap[safeType] ?? 'i-ph:question'\<close>\<close>
  "iconClass type =
     (case iconClassMap (safeType type) of
        None \<Rightarrow> IconString (js ''i-ph:question'')
      | Some v \<Rightarrow> v)"

record quick_action =
  qa_type :: prop_value
  qa_message :: prop_value
  qa_path :: prop_value
  qa_href :: prop_value

definition read_quick_action :: "properties \<Rightarrow> quick_action" where
  \<comment> \<open>the four reads \<^verbatim>\<open>dataProps['data-x'] || dataProps.dataX\<close>\<close>
  "read_quick_action dp =
     \<lparr> qa_type = js_or (get_prop dp (js ''data-type'')) (get_prop dp (js ''dataType'')),
       qa_message = js_or (get_prop dp (js ''data-message'')) (get_prop dp (js ''dataMessage'')),
       qa_path = js_or (get_prop dp (js ''data-path'')) (get_prop dp (js ''dataPath'')),
       qa_href = js_or (get_prop dp (js ''data-href'')) (get_prop dp (js ''dataHref'')) \<rparr>"

datatype ('p, 'c) button_output =
  QuickActionButton quick_action icon_value 'c
    \<comment> \<open>the styled button with its data attributes, its icon and the children\<close>
| PlainButton 'p 'c
    \<comment> \<open>\<^verbatim>\<open><button {...props}>{children}</button>\<close>\<close>

definition node_properties :: "hast_node option \<Rightarrow> properties option" where
  \<comment> \<open>\<^verbatim>\<open>node?.properties\<close>\<close>
  "node_properties node =
     (case node of Some (Element tagName props cs) \<Rightarrow> Some props | _ \<Rightarrow> None)"

definition components_button ::
    "hast_node option \<Rightarrow> 'c \<Rightarrow> 'p \<Rightarrow> ('p, 'c) button_output" where
  \<comment> \<open>\<^verbatim>\<open>button: ({ node, children, ...props }) => ...\<close>\<close>
  "components_button node children props =
     (case node_properties node of
        Some dp \<Rightarrow>
          if is_quick_action (Some dp)
          then let qa = read_quick_action dp
               in QuickActionButton qa (iconClass (qa_type qa)) children
          else PlainButton props children
      | None \<Rightarrow> PlainButton props children)"

subsection \<open>The click handler of a quick-action button\<close>

text \<open>
  The handler closes over \<^verbatim>\<open>append\<close>, \<^verbatim>\<open>setChatMode\<close>, \<^verbatim>\<open>model\<close> and \<^verbatim>\<open>provider\<close> of
  the render in which the overrides were built (\<^verbatim>\<open>useMemo\<close> with no dependencies).
  The two callbacks are optional: the environment records whether each was supplied,
  and a call of one is an entry of the list of actions the handler returns.
  \<^verbatim>\<open>Date.now()\<close> and the URL parser of the browser are parameters.
\<close>

record markdown_env =
  has_append :: bool
  has_setChatMode :: bool
  model_name :: "jsstring option"
  provider_name :: "jsstring option"
    \<comment> \<open>\<^verbatim>\<open>provider?.name\<close>: \<open>None\<close> when no provider was supplied\<close>

record message =
  msg_id :: jsstring
  msg_text :: jsstring
  msg_role :: jsstring

datatype chat_mode = Discuss | Build

datatype action =
  OpenArtifactInWorkbench prop_value
| Append message
| SetChatMode chat_mode
| WindowOpen jsstring
| ConsoleLog
| ConsoleError

function decimal :: "nat \<Rightarrow> jsstring" where
  \<comment> \<open>the digits a template literal inserts for a non-negative integer\<close>
  "decimal n =
     (if n < 10 then [of_nat (48 + n)]
      else decimal (n div 10) @ [of_nat (48 + n mod 10)])"
  by pat_completeness auto
termination
  by (relation "measure id") auto

declare decimal.simps [simp del]

definition opt_String :: "jsstring option \<Rightarrow> jsstring" where
  \<comment> \<open>\<^verbatim>\<open>${v}\<close> for an optional string: \<^verbatim>\<open>undefined\<close> is inserted as that word\<close>
  "opt_String v = (case v of None \<Rightarrow> js ''undefined'' | Some s \<Rightarrow> s)"

definition annotated_text :: "markdown_env \<Rightarrow> prop_value \<Rightarrow> jsstring" where
  \<comment> \<open>\<^verbatim>\<open>`[Model: ${model}]\n\n[Provider: ${provider?.name}]\n\n${message}`\<close>\<close>
  "annotated_text env msg =
     js ''[Model: '' @ opt_String (model_name env) @ js '']'' @ [newline, newline]
     @ js ''[Provider: '' @ opt_String (provider_name env) @ js '']'' @ [newline, newline]
     @ to_String msg"

definition onClick ::
    "markdown_env \<Rightarrow> (jsstring \<Rightarrow> jsstring option) \<Rightarrow> nat \<Rightarrow> quick_action \<Rightarrow> action list" where
  \<comment> \<open>the \<^verbatim>\<open>onClick\<close> of the quick-action button. \<open>parse_url href\<close> is
      \<^verbatim>\<open>new URL(href, window.location.origin).toString()\<close>, \<open>None\<close> when it throws;
      \<open>now\<close> is \<^verbatim>\<open>Date.now()\<close>.\<close>
  "onClick env parse_url now qa =
     (if qa_type qa = PString (js ''file'') then
        [OpenArtifactInWorkbench (qa_path qa)]
      else if qa_type qa = PString (js ''message'') \<and> has_append env then
        [Append \<lparr> msg_id = js ''quick-action-message-'' @ decimal now,
                  msg_text = annotated_text env (qa_message qa),
                  msg_role = js ''user'' \<rparr>,
         ConsoleLog]
      else if qa_type qa = PString (js ''implement'') \<and> has_append env
              \<and> has_setChatMode env then
        [SetChatMode Build,
         Append \<lparr> msg_id = js ''quick-action-implement-'' @ decimal now,
                  msg_text = annotated_text env (qa_message qa),
                  msg_role = js ''user'' \<rparr>]
      else if qa_type qa = PString (js ''link'') then
        (case qa_href qa of
           PString href \<Rightarrow>
             (case parse_url href of
                Some url \<Rightarrow> [WindowOpen url]
              | None \<Rightarrow> [ConsoleError])
         | _ \<Rightarrow> [])
      else [])"

fun appended_messages :: "action list \<Rightarrow> message list" where
  \<comment> \<open>the messages the handler passed to \<^verbatim>\<open>append\<close>, in the order of the calls\<close>
  "appended_messages [] = []"
| "appended_messages (Append m # as) = m # appended_messages as"
| "appended_messages (a # as) = appended_messages as"

section \<open>HistoryItem\<close>

text \<open>
  The component is modelled by the tree of elements it returns, each element with the
  click handler the source attaches to it, and by the dispatch of a click: the event
  bubbles from its target to the root, every handler on the way runs unless
  propagation was stopped, and then the default action takes place unless it was
  prevented. The default action of a click inside an anchor is the navigation to its
  \<^verbatim>\<open>href\<close>. A call of a callback is an entry of the list of effects.
\<close>

record MouseEvent =
  defaultPrevented :: bool
  propagationStopped :: bool

record HistoryItemProps =
  item_id :: jsstring
  item_urlId :: jsstring
  has_onDelete :: bool
  has_onDuplicate :: bool
  selectionMode :: bool
  isSelected :: bool
  has_onToggleSelection :: bool

datatype effect =
  ToggleSelection jsstring
| Delete
| Duplicate jsstring
| ExportChat jsstring
| ToggleEditMode
| Navigate jsstring

datatype handler =
  HandleItemClick
| StopPropagation
    \<comment> \<open>\<^verbatim>\<open>(e) => e.stopPropagation()\<close> of the checkbox wrapper\<close>
| HandleCheckboxChange
| ExportClick
| DuplicateClick
| RenameClick
| HandleDeleteClick

definition preventDefault :: "MouseEvent \<Rightarrow> MouseEvent" where
  "preventDefault e = e\<lparr>defaultPrevented := True\<rparr>"

definition stopPropagation :: "MouseEvent \<Rightarrow> MouseEvent" where
  "stopPropagation e = e\<lparr>propagationStopped := True\<rparr>"

definition onToggleSelection :: "HistoryItemProps \<Rightarrow> effect list" where
  \<comment> \<open>\<^verbatim>\<open>onToggleSelection?.(item.id)\<close>\<close>
  "onToggleSelection p = (if has_onToggleSelection p then [ToggleSelection (item_id p)] else [])"

definition handleItemClick :: "HistoryItemProps \<Rightarrow> MouseEvent \<Rightarrow> MouseEvent \<times> effect list" where
  "handleItemClick p e =
     (if selectionMode p
      then (stopPropagation (preventDefault e), onToggleSelection p)
      else (e, []))"

definition handleCheckboxChange :: "HistoryItemProps \<Rightarrow> MouseEvent \<Rightarrow> MouseEvent \<times> effect list" where
  "handleCheckboxChange p e = (e, onToggleSelection p)"

definition handleDeleteClick :: "HistoryItemProps \<Rightarrow> MouseEvent \<Rightarrow> MouseEvent \<times> effect list" where
  "handleDeleteClick p e =
     (stopPropagation (preventDefault e), if has_onDelete p then [Delete] else [])"

definition exportClick :: "HistoryItemProps \<Rightarrow> MouseEvent \<Rightarrow> MouseEvent \<times> effect list" where
  \<comment> \<open>\<^verbatim>\<open>(event) => { event.preventDefault(); exportChat(item.id); }\<close>\<close>
  "exportClick p e = (preventDefault e, [ExportChat (item_id p)])"

definition duplicateClick :: "HistoryItemProps \<Rightarrow> MouseEvent \<Rightarrow> MouseEvent \<times> effect list" where
  \<comment> \<open>\<^verbatim>\<open>(event) => { event.preventDefault(); onDuplicate?.(item.id); }\<close>\<close>
  "duplicateClick p e =
     (preventDefault e, if has_onDuplicate p then [Duplicate (item_id p)] else [])"

definition renameClick :: "HistoryItemProps \<Rightarrow> MouseEvent \<Rightarrow> MouseEvent \<times> effect list" where
  \<comment> \<open>\<^verbatim>\<open>(event) => { event.preventDefault(); toggleEditMode(); }\<close>\<close>
  "renameClick p e = (preventDefault e, [ToggleEditMode])"

fun run_handler :: "HistoryItemProps \<Rightarrow> handler \<Rightarrow> MouseEvent \<Rightarrow> MouseEvent \<times> effect list" where
  "run_handler p HandleItemClick e = handleItemClick p e"
| "run_handler p StopPropagation e = (stopPropagation e, [])"
| "run_handler p HandleCheckboxChange e = handleCheckboxChange p e"
| "run_handler p ExportClick e = exportClick p e"
| "run_handler p DuplicateClick e = duplicateClick p e"
| "run_handler p RenameClick e = renameClick p e"
| "run_handler p HandleDeleteClick e = handleDeleteClick p e"

datatype tag =
  DivTag | AnchorTag jsstring | SpanTag | FormTag | InputTag | ButtonTag
| CheckboxTag | WithTooltip

datatype vnode = VNode tag "handler option" "vnode list"

definition ChatActionButton :: "handler \<Rightarrow> vnode" where
  \<comment> \<open>a button with the given \<^verbatim>\<open>onClick\<close>, inside its tooltip wrapper\<close>
  "ChatActionButton h = VNode WithTooltip None [VNode ButtonTag (Some h) []]"

definition item_href :: "HistoryItemProps \<Rightarrow> jsstring" where
  \<comment> \<open>\<^verbatim>\<open>`/chat/${item.urlId}`\<close>\<close>
  "item_href p = js ''/chat/'' @ item_urlId p"

definition row_onClick :: "HistoryItemProps \<Rightarrow> handler option" where
  \<comment> \<open>\<^verbatim>\<open>onClick={selectionMode ? handleItemClick : undefined}\<close>\<close>
  "row_onClick p = (if selectionMode p then Some HandleItemClick else None)"

definition HistoryItem :: "HistoryItemProps \<Rightarrow> bool \<Rightarrow> vnode" where
  \<comment> \<open>the returned tree; \<open>editing\<close> is the state of the rename hook\<close>
  "HistoryItem p editing =
     VNode DivTag (row_onClick p)
       ((if selectionMode p
         then [VNode DivTag (Some StopPropagation)
                 [VNode CheckboxTag (Some HandleCheckboxChange) []]]
         else [])
        @ [if editing
           then VNode FormTag None [VNode InputTag None [], VNode ButtonTag None []]
           else VNode (AnchorTag (item_href p)) (row_onClick p)
                  [VNode WithTooltip None [VNode SpanTag None []],
                   VNode DivTag None
                     [VNode DivTag None
                        ([ChatActionButton ExportClick]
                         @ (if has_onDuplicate p then [ChatActionButton DuplicateClick] else [])
                         @ [ChatActionButton RenameClick,
                            ChatActionButton HandleDeleteClick])]]])"

subsection \<open>Dispatch of a click\<close>

fun path_nodes :: "vnode \<Rightarrow> nat list \<Rightarrow> vnode list option" where
  \<comment> \<open>the elements from the root down to the target; a target is the list of child
      indices that leads to it, \<open>None\<close> when there is no such element\<close>
  "path_nodes (VNode t h cs) [] = Some [VNode t h cs]"
| "path_nodes (VNode t h cs) (i # is) =
     (if i < length cs
      then map_option (\<lambda>ns. VNode t h cs # ns) (path_nodes (cs ! i) is)
      else None)"

fun bubble :: "HistoryItemProps \<Rightarrow> vnode list \<Rightarrow> MouseEvent \<Rightarrow> MouseEvent \<times> effect list" where
  \<comment> \<open>the handlers from the target outwards, until propagation is stopped\<close>
  "bubble p [] e = (e, [])"
| "bubble p (VNode t h cs # outer) e =
     (case (case h of None \<Rightarrow> (e, []) | Some f \<Rightarrow> run_handler p f e) of
        (e1, fx) \<Rightarrow>
          if propagationStopped e1 then (e1, fx)
          else (case bubble p outer e1 of (e2, fx2) \<Rightarrow> (e2, fx @ fx2)))"

fun enclosing_href :: "vnode list \<Rightarrow> jsstring option" where
  \<comment> \<open>the \<^verbatim>\<open>href\<close> of the nearest anchor, from the target outwards\<close>
  "enclosing_href [] = None"
| "enclosing_href (VNode (AnchorTag href) h cs # outer) = Some href"
| "enclosing_href (VNode t h cs # outer) = enclosing_href outer"

definition default_action :: "MouseEvent \<Rightarrow> vnode list \<Rightarrow> effect list" where
  "default_action e target_first =
     (if defaultPrevented e then []
      else case enclosing_href target_first of
             None \<Rightarrow> []
           | Some href \<Rightarrow> [Navigate href])"

definition click :: "HistoryItemProps \<Rightarrow> vnode \<Rightarrow> nat list \<Rightarrow> effect list option" where
  \<comment> \<open>everything a click on the target does, in order\<close>
  "click p root target =
     (case path_nodes root target of
        None \<Rightarrow> None
      | Some ns \<Rightarrow>
          (case bubble p (rev ns) \<lparr>defaultPrevented = False, propagationStopped = False\<rparr> of
             (e, fx) \<Rightarrow> Some (fx @ default_action e (rev ns))))"

subsection \<open>The elements of a row that is not being renamed\<close>

definition anchor_target :: "HistoryItemProps \<Rightarrow> nat list" where
  \<comment> \<open>the anchor: the child of the row after the checkbox wrapper, when there is one\<close>
  "anchor_target p = [if selectionMode p then 1 else 0]"

definition action_button :: "HistoryItemProps \<Rightarrow> nat \<Rightarrow> nat list" where
  \<comment> \<open>the button of the \<open>k\<close>-th \<^verbatim>\<open>ChatActionButton\<close> of the anchor\<close>
  "action_button p k = anchor_target p @ [1, 0, k, 0]"

definition export_button :: "HistoryItemProps \<Rightarrow> nat list" where
  "export_button p = action_button p 0"

definition duplicate_button :: "HistoryItemProps \<Rightarrow> nat list" where
  \<comment> \<open>rendered only when \<^verbatim>\<open>onDuplicate\<close> is supplied\<close>
  "duplicate_button p = action_button p 1"

definition rename_button :: "HistoryItemProps \<Rightarrow> nat list" where
  "rename_button p = action_button p (if has_onDuplicate p then 2 else 1)"

definition delete_button :: "HistoryItemProps \<Rightarrow> nat list" where
  "delete_button p = action_button p (if has_onDuplicate p then 3 else 2)"

definition anchor_targets :: "HistoryItemProps \<Rightarrow> nat list list" where
  \<comment> \<open>the anchor and the elements inside it other than the action buttons: the
      tooltip wrapper and the span of the description, and the two containers of the
      action buttons\<close>
  "anchor_targets p = map (\<lambda>t. anchor_target p @ t) [[], [0], [0, 0], [1], [1, 0]]"

definition target_element :: "vnode \<Rightarrow> nat list \<Rightarrow> (tag \<times> handler option) option" where
  \<comment> \<open>the tag and the click handler of the element a target names\<close>
  "target_element root target =
     map_option (\<lambda>ns. case last ns of VNode t h cs \<Rightarrow> (t, h)) (path_nodes root target)"

definition sample_item :: "bool \<Rightarrow> HistoryItemProps" where
  \<comment> \<open>a history item with every callback supplied, in or out of selection mode\<close>
  "sample_item selecting =
     \<lparr> item_id = js ''7'', item_urlId = js ''seven'', has_onDelete = True,
       has_onDuplicate = True, selectionMode = selecting, isSelected = False,
       has_onToggleSelection = True \<rparr>"

section \<open>Properties of the string operations\<close>

lemma startsWith_iff: "startsWith s p \<longleftrightarrow> (\<exists>r. s = p @ r)"
  by (induction s p rule: startsWith.induct) auto

lemma includes_str_iff: "includes_str s m \<longleftrightarrow> (\<exists>a b. s = a @ m @ b)"
proof (induction s)
  case Nil
  then show ?case by auto
next
  case (Cons c cs)
  show ?case
  proof
    assume "includes_str (c # cs) m"
    then consider "startsWith (c # cs) m" | "includes_str cs m" by auto
    then show "\<exists>a b. c # cs = a @ m @ b"
    proof cases
      case 1
      then obtain r where "c # cs = m @ r" by (auto simp: startsWith_iff)
      then have "c # cs = [] @ m @ r" by simp
      then show ?thesis by blast
    next
      case 2
      then obtain a b where "cs = a @ m @ b" using Cons.IH by auto
      then have "c # cs = (c # a) @ m @ b" by simp
      then show ?thesis by blast
    qed
  next
    assume "\<exists>a b. c # cs = a @ m @ b"
    then obtain a b where ab: "c # cs = a @ m @ b" by auto
    show "includes_str (c # cs) m"
    proof (cases a)
      case Nil
      with ab have "startsWith (c # cs) m" by (auto simp: startsWith_iff)
      then show ?thesis by simp
    next
      case (Cons x a')
      with ab have "cs = a' @ m @ b" by simp
      then have "includes_str cs m" using Cons.IH by auto
      then show ?thesis by simp
    qed
  qed
qed

lemma split_on_not_Nil: "split_on sep s \<noteq> []"
  by (induction s) (auto simp: Let_def)

lemma join_split_on: "join_with sep (split_on sep s) = s"
proof (induction s)
  case Nil
  then show ?case by simp
next
  case (Cons c cs)
  obtain l ls where r: "split_on sep cs = l # ls"
    using split_on_not_Nil [of sep cs] by (cases "split_on sep cs") auto
  with Cons show ?case by (cases ls) (auto simp: Let_def)
qed

lemma split_on_lines_free: "list_all (\<lambda>l. sep \<notin> set l) (split_on sep s)"
proof (induction s)
  case Nil
  then show ?case by simp
next
  case (Cons c cs)
  obtain l ls where r: "split_on sep cs = l # ls"
    using split_on_not_Nil [of sep cs] by (cases "split_on sep cs") auto
  with Cons show ?case by (auto simp: Let_def)
qed

lemma split_on_append_sep:
  "sep \<notin> set l \<Longrightarrow> split_on sep (l @ sep # s) = l # split_on sep s"
  by (induction l) (auto simp: Let_def)

lemma split_on_free: "sep \<notin> set l \<Longrightarrow> split_on sep l = [l]"
  by (induction l) (auto simp: Let_def)

lemma split_join_with:
  "ls \<noteq> [] \<Longrightarrow> list_all (\<lambda>l. sep \<notin> set l) ls \<Longrightarrow> split_on sep (join_with sep ls) = ls"
proof (induction sep ls rule: join_with.induct)
  case (1 sep)
  then show ?case by simp
next
  case (2 sep l)
  then show ?case by (simp add: split_on_free)
next
  case (3 sep l m ls)
  then show ?case by (simp add: split_on_append_sep)
qed

lemma findIndex_Some:
  "findIndex P xs = Some i \<longleftrightarrow> i < length xs \<and> P (xs ! i) \<and> (\<forall>j<i. \<not> P (xs ! j))"
proof (induction xs arbitrary: i)
  case Nil
  then show ?case by simp
next
  case (Cons x xs)
  show ?case
  proof (cases "P x")
    case True
    then show ?thesis by (cases i) auto
  next
    case False
    show ?thesis
    proof (cases i)
      case 0
      with False show ?thesis by auto
    next
      case (Suc k)
      have "(\<forall>j<Suc k. \<not> P ((x # xs) ! j)) \<longleftrightarrow> (\<forall>j<k. \<not> P (xs ! j))"
        using False by (auto simp: less_Suc_eq_0_disj)
      with False Suc Cons.IH [of k] show ?thesis by auto
    qed
  qed
qed

lemma join_with_mem: "l \<in> set ls \<Longrightarrow> \<exists>a b. join_with sep ls = a @ l @ b"
proof (induction sep ls rule: join_with.induct)
  case (1 sep)
  then show ?case by simp
next
  case (2 sep x)
  then have "join_with sep [x] = [] @ l @ []" by simp
  then show ?case by blast
next
  case (3 sep x m ls)
  show ?case
  proof (cases "l = x")
    case True
    then have "join_with sep (x # m # ls) = [] @ l @ (sep # join_with sep (m # ls))" by simp
    then show ?thesis by blast
  next
    case False
    with 3 obtain a b where "join_with sep (m # ls) = a @ l @ b" by auto
    then have "join_with sep (x # m # ls) = (x @ sep # a) @ l @ b" by simp
    then show ?thesis by blast
  qed
qed

lemma includes_join_with:
  assumes "l \<in> set ls" "includes_str l m"
  shows "includes_str (join_with sep ls) m"
proof -
  obtain a b where 1: "join_with sep ls = a @ l @ b" using join_with_mem [OF assms(1)] by blast
  obtain c d where 2: "l = c @ m @ d" using assms(2) by (auto simp: includes_str_iff)
  have "join_with sep ls = (a @ c) @ m @ (d @ b)" by (simp add: 1 2)
  then show ?thesis unfolding includes_str_iff by blast
qed

section \<open>Properties of stripCodeFenceFromArtifact\<close>

lemma trim_Nil: "trim [] = []"
  by (simp add: trim_def)

lemma no_match_Nil: "\<not> match_open_fence []" "\<not> match_close_fence []"
  by (simp_all add: match_open_fence_def match_close_fence_def backticks_def)

lemma not_artifact_line_Nil: "\<not> is_artifact_line []"
  by (simp add: is_artifact_line_def artifact_marker_def js_def)

lemma newline_notin_marker: "newline \<notin> set artifact_marker"
  by (simp add: artifact_marker_def js_def newline_def)

lemma length_clear_open_fence: "length (clear_open_fence i ls) = length ls"
  by (simp add: clear_open_fence_def)

lemma length_clear_close_fence: "length (clear_close_fence i ls) = length ls"
  by (simp add: clear_close_fence_def)

lemma list_all_update:
  "list_all P xs \<Longrightarrow> P v \<Longrightarrow> list_all P (xs[k := v])"
  by (induction xs arbitrary: k) (auto split: nat.splits)

lemma clear_open_fence_free:
  "list_all (\<lambda>l. newline \<notin> set l) ls \<Longrightarrow> list_all (\<lambda>l. newline \<notin> set l) (clear_open_fence i ls)"
  by (simp add: clear_open_fence_def list_all_update)

lemma clear_close_fence_free:
  "list_all (\<lambda>l. newline \<notin> set l) ls \<Longrightarrow> list_all (\<lambda>l. newline \<notin> set l) (clear_close_fence i ls)"
  by (simp add: clear_close_fence_def list_all_update)

lemma nth_clear_at: "clear_close_fence i (clear_open_fence i ls) ! i = ls ! i"
  by (auto simp: clear_open_fence_def clear_close_fence_def)

lemma nth_update_Nil: "xs[k := []] ! j = xs ! j \<or> xs[k := []] ! j = []"
proof (cases "j = k \<and> k < length xs")
  case True
  then show ?thesis by simp
next
  case False
  then have "xs[k := []] ! j = xs ! j" by (cases "j = k") (auto simp: list_update_beyond)
  then show ?thesis by simp
qed

lemma nth_clear_other:
  "clear_close_fence i (clear_open_fence i ls) ! j = ls ! j
   \<or> clear_close_fence i (clear_open_fence i ls) ! j = []"
proof -
  have 1: "clear_open_fence i ls ! j = ls ! j \<or> clear_open_fence i ls ! j = []"
    using nth_update_Nil [of ls "i - 1" j] by (simp add: clear_open_fence_def)
  have 2: "clear_close_fence i xs ! j = xs ! j \<or> clear_close_fence i xs ! j = []" for xs
    using nth_update_Nil [of xs "i + 1" j] by (simp add: clear_close_fence_def)
  from 1 2 [of "clear_open_fence i ls"] show ?thesis by auto
qed

lemma findIndex_clear:
  assumes "findIndex is_artifact_line ls = Some i"
  shows "findIndex is_artifact_line (clear_close_fence i (clear_open_fence i ls)) = Some i"
proof -
  let ?ls' = "clear_close_fence i (clear_open_fence i ls)"
  from assms have i: "i < length ls" and at: "is_artifact_line (ls ! i)"
    and before: "\<forall>j<i. \<not> is_artifact_line (ls ! j)"
    by (simp_all add: findIndex_Some)
  have len: "length ?ls' = length ls"
    by (simp add: length_clear_close_fence length_clear_open_fence)
  have "\<not> is_artifact_line (?ls' ! j)" if "j < i" for j
  proof -
    from nth_clear_other [of i ls j] before that show ?thesis
      by (auto simp: not_artifact_line_Nil)
  qed
  with i at len show ?thesis
    by (simp add: findIndex_Some nth_clear_at)
qed

lemma clear_open_fence_fixed:
  "xs[i - 1 := []] = xs \<Longrightarrow> clear_open_fence i xs = xs"
  by (simp add: clear_open_fence_def)

lemma clear_open_fence_again:
  "clear_open_fence i (clear_close_fence i (clear_open_fence i ls))
   = clear_close_fence i (clear_open_fence i ls)"
proof (cases "0 < i \<and> match_open_fence (trim (ls ! (i - 1)))")
  case True
  then have 1: "clear_open_fence i ls = ls[i - 1 := []]" by (simp add: clear_open_fence_def)
  have "(clear_close_fence i (ls[i - 1 := []]))[i - 1 := []] = clear_close_fence i (ls[i - 1 := []])"
    using True by (auto simp: clear_close_fence_def list_update_swap)
  then show ?thesis unfolding 1 by (rule clear_open_fence_fixed)
next
  case False
  then have 1: "clear_open_fence i ls = ls" by (auto simp: clear_open_fence_def)
  have "0 < i \<Longrightarrow> clear_close_fence i ls ! (i - 1) = ls ! (i - 1)"
    by (auto simp: clear_close_fence_def)
  with False have "\<not> (0 < i \<and> match_open_fence (trim (clear_close_fence i ls ! (i - 1))))"
    by auto
  then have "clear_open_fence i (clear_close_fence i ls) = clear_close_fence i ls"
    unfolding clear_open_fence_def [of i "clear_close_fence i ls"] by (rule if_not_P)
  then show ?thesis unfolding 1 .
qed

lemma clear_close_fence_again:
  "clear_close_fence i (clear_close_fence i ls) = clear_close_fence i ls"
  by (auto simp: clear_close_fence_def)

lemma clear_fences_again:
  "clear_close_fence i (clear_open_fence i (clear_close_fence i (clear_open_fence i ls)))
   = clear_close_fence i (clear_open_fence i ls)"
  by (simp add: clear_open_fence_again clear_close_fence_again)

lemma strip_of_lines:
  assumes "findIndex is_artifact_line (split_on newline content) = Some i"
  shows "stripCodeFenceFromArtifact content
         = join_with newline (clear_close_fence i (clear_open_fence i (split_on newline content)))"
proof -
  let ?ls = "split_on newline content"
  from assms have "i < length ?ls" "is_artifact_line (?ls ! i)"
    by (simp_all add: findIndex_Some)
  then have "includes_str (join_with newline ?ls) artifact_marker"
    using includes_join_with [of "?ls ! i" ?ls artifact_marker newline]
    by (simp add: is_artifact_line_def)
  then have inc: "includes_str content artifact_marker" by (simp add: join_split_on)
  then have "content \<noteq> []" by (auto simp: artifact_marker_def js_def)
  with inc assms show ?thesis by (simp add: stripCodeFenceFromArtifact_def)
qed

lemma split_strip:
  assumes "findIndex is_artifact_line (split_on newline content) = Some i"
  shows "split_on newline (stripCodeFenceFromArtifact content)
         = clear_close_fence i (clear_open_fence i (split_on newline content))"
proof -
  let ?ls = "split_on newline content"
  let ?ls' = "clear_close_fence i (clear_open_fence i ?ls)"
  have "?ls' \<noteq> []"
    using split_on_not_Nil [of newline content]
      length_clear_close_fence [of i "clear_open_fence i ?ls"] length_clear_open_fence [of i ?ls]
    by (metis length_0_conv)
  moreover have "list_all (\<lambda>l. newline \<notin> set l) ?ls'"
    by (simp add: clear_close_fence_free clear_open_fence_free split_on_lines_free)
  ultimately show ?thesis
    by (simp add: strip_of_lines [OF assms] split_join_with)
qed

lemma example_lines:
  "split_on newline fenced_artifact_example =
     [js ''Here is the project:'', js ''```html'',
      js ''<div class=__boltArtifact__ data-message-id=m1></div>'', js ''  ```'', js ''Done.'']"
  by code_simp

text \<open>
  Claim C4. Let the first line that contains the artifact marker be line \<open>i\<close> of the
  input (the line \<^verbatim>\<open>findIndex\<close> selects). If the line before it, trimmed, is an opening
  code fence (three backquotes and then word characters only) and the line after it,
  trimmed, is a closing code fence (three backquotes), then the lines of the output
  are the lines of the input with both fence lines replaced by empty lines, and the
  output has as many lines as the input.
\<close>

theorem strip_fenced_artifact:
  assumes "findIndex is_artifact_line (split_on newline content) = Some i"
    and "0 < i" and "match_open_fence (trim (split_on newline content ! (i - 1)))"
    and "i + 1 < length (split_on newline content)"
    and "match_close_fence (trim (split_on newline content ! (i + 1)))"
  shows "split_on newline (stripCodeFenceFromArtifact content)
           = (split_on newline content)[i - 1 := [], i + 1 := []]
         \<and> length (split_on newline (stripCodeFenceFromArtifact content))
           = length (split_on newline content)"
proof -
  have "clear_close_fence i (clear_open_fence i (split_on newline content))
        = (split_on newline content)[i - 1 := [], i + 1 := []]"
    using assms(2-5) by (simp add: clear_open_fence_def clear_close_fence_def)
  then show ?thesis by (simp add: split_strip [OF assms(1)])
qed

theorem strip_fenced_artifact_witness:
  "findIndex is_artifact_line (split_on newline fenced_artifact_example) = Some 2
   \<and> match_open_fence (trim (split_on newline fenced_artifact_example ! 1))
   \<and> match_close_fence (trim (split_on newline fenced_artifact_example ! 3))
   \<and> split_on newline (stripCodeFenceFromArtifact fenced_artifact_example) =
       [js ''Here is the project:'', [],
        js ''<div class=__boltArtifact__ data-message-id=m1></div>'', [], js ''Done.'']
   \<and> length (split_on newline (stripCodeFenceFromArtifact fenced_artifact_example)) = 5"
proof -
  let ?ls = "split_on newline fenced_artifact_example"
  have h1: "findIndex is_artifact_line ?ls = Some 2" by code_simp
  have h2: "(0::nat) < 2" by simp
  have h3: "match_open_fence (trim (?ls ! (2 - 1)))" by code_simp
  have h4: "2 + 1 < length ?ls" by code_simp
  have h5: "match_close_fence (trim (?ls ! (2 + 1)))" by code_simp
  from strip_fenced_artifact [OF h1 h2 h3 h4 h5] h1 h3 h5 show ?thesis
    by (simp add: example_lines)
qed

text \<open>
  Claim C5. A markdown string that does not contain the artifact marker is returned
  unchanged, and so applying the transform twice to it gives what applying it once
  gives.
\<close>

theorem strip_without_marker:
  assumes "\<not> includes_str content artifact_marker"
  shows "stripCodeFenceFromArtifact content = content
         \<and> stripCodeFenceFromArtifact (stripCodeFenceFromArtifact content)
           = stripCodeFenceFromArtifact content"
  using assms by (simp add: stripCodeFenceFromArtifact_def)

theorem strip_without_marker_witness:
  "\<not> includes_str (js ''```ts'' @ [newline] @ js ''let x = 1'' @ [newline] @ js ''```'') artifact_marker
   \<and> stripCodeFenceFromArtifact (js ''```ts'' @ [newline] @ js ''let x = 1'' @ [newline] @ js ''```'')
     = js ''```ts'' @ [newline] @ js ''let x = 1'' @ [newline] @ js ''```''"
proof -
  have h: "\<not> includes_str (js ''```ts'' @ [newline] @ js ''let x = 1'' @ [newline] @ js ''```'') artifact_marker"
    by code_simp
  from strip_without_marker [OF h] h show ?thesis by simp
qed

text \<open>
  Claim C9. The transform is idempotent on every input string, with or without the
  artifact marker.
\<close>

theorem strip_idempotent:
  "stripCodeFenceFromArtifact (stripCodeFenceFromArtifact content)
   = stripCodeFenceFromArtifact content"
proof (cases "findIndex is_artifact_line (split_on newline content)")
  case None
  then have "stripCodeFenceFromArtifact content = content"
    by (simp add: stripCodeFenceFromArtifact_def)
  then show ?thesis by simp
next
  case (Some i)
  let ?r = "stripCodeFenceFromArtifact content"
  let ?ls' = "clear_close_fence i (clear_open_fence i (split_on newline content))"
  have s: "split_on newline ?r = ?ls'"
    by (rule split_strip [OF Some])
  have f: "findIndex is_artifact_line (split_on newline ?r) = Some i"
    unfolding s by (rule findIndex_clear [OF Some])
  have "stripCodeFenceFromArtifact ?r
        = join_with newline (clear_close_fence i (clear_open_fence i (split_on newline ?r)))"
    by (rule strip_of_lines [OF f])
  also have "\<dots> = join_with newline (clear_close_fence i (clear_open_fence i ?ls'))"
    by (simp only: s)
  also have "\<dots> = join_with newline ?ls'"
    by (simp only: clear_fences_again)
  also have "\<dots> = ?r"
    by (simp only: strip_of_lines [OF Some])
  finally show ?thesis .
qed

section \<open>Properties of the pre override\<close>

lemma exec_language_prefix:
  assumes "is_word_char d"
  shows "exec_language (js ''language-'' @ d # ds) = Some (takeWhile is_word_char (d # ds))"
  using assms by (simp add: js_def)

lemma extract_language_name:
  assumes "name \<noteq> []" "list_all is_word_char name"
  shows "extract_language (PString (js ''language-'' @ name)) = name"
proof -
  from assms obtain d ds where n: "name = d # ds" by (cases name) auto
  with assms have d: "is_word_char d" by simp
  have "takeWhile is_word_char name = name"
    using assms(2) by (simp add: list_all_iff)
  with exec_language_prefix [OF d, of ds] n show ?thesis
    by (simp add: extract_language_def js_def)
qed

text \<open>
  Claim C7. In the language extraction of the pre override the class string
  \<^verbatim>\<open>language-python\<close> (as a string, or as the array of class names the parser
  delivers) yields the language \<^verbatim>\<open>python\<close>; the class string \<^verbatim>\<open>language-\<close> and an
  absent class property both yield the default \<^verbatim>\<open>plaintext\<close>.
\<close>

theorem language_extraction:
  "extract_language (PString (js ''language-python'')) = js ''python''
   \<and> extract_language (PStrings [js ''language-python'']) = js ''python''
   \<and> extract_language (PString (js ''language-'')) = js ''plaintext''
   \<and> extract_language PUndefined = js ''plaintext''"
  by code_simp

text \<open>
  Claim C2. Rendering is claimed never to throw. For a preformatted node whose first
  child is a code element with an empty list of children the pre override reads
  \<^verbatim>\<open>.type\<close> of the missing first child of the code element: the result is a
  TypeError, not a fallback element.
\<close>

theorem pre_empty_code_throws:
  "components_pre children
     (Some (Element (js ''pre'') pre_props [Element (js ''code'') code_props []])) rest
   = Inl TypeError"
  by (simp add: components_pre_def node_children_def)

text \<open>
  Claim C6, as stated, lets every preformatted node with more than one child pass
  through as a generic element. The override looks at the first child only: a node
  with a code element first and a text after it is rendered as a code block.
\<close>

theorem pre_two_children_counterexample:
  "components_pre ()
     (Some (Element (js ''pre'') Map.empty
        [Element (js ''code'') Map.empty [Text (js ''x = 1'')], Text (js ''tail'')])) ()
   = Inr (CodeBlock [js ''code'' \<mapsto> PString (js ''x = 1''),
                     js ''language'' \<mapsto> PString (js ''plaintext'')])
   \<and> components_pre ()
     (Some (Element (js ''pre'') Map.empty
        [Element (js ''code'') Map.empty [Text (js ''x = 1'')], Text (js ''tail'')])) ()
   \<noteq> Inr (PreElement () ())"
  by (simp add: components_pre_def node_children_def extract_language_def get_prop_def js_def)

text \<open>
  Claim C6, amended. The pre override special-cases a preformatted node when its first
  child is a code element whose first child is a text, whatever follows either of
  them: it renders the code block component. The props of the component are
  \<^verbatim>\<open>code\<close>, that text, and \<^verbatim>\<open>language\<close>, the extracted language, followed by the
  properties of the code element other than \<^verbatim>\<open>className\<close>; so the component gets that
  text and the extracted language unless the code element has a property named
  \<^verbatim>\<open>code\<close> or \<^verbatim>\<open>language\<close>, whose value then takes the place. A node without
  children, a node whose first child is not a code element, and a node whose code
  element has a first child that is not a text pass through as a generic pre element
  with the given properties and children.
\<close>

theorem pre_first_child_decides:
  "components_pre children
     (Some (Element t ps (Element (js ''code'') cps (Text v # later) # others))) rest
   = Inr (CodeBlock
            ([js ''code'' \<mapsto> PString v,
              js ''language'' \<mapsto> PString (extract_language (get_prop cps (js ''className'')))]
             ++ cps(js ''className'' := None)))
   \<and> ([js ''code'' \<mapsto> PString v,
        js ''language'' \<mapsto> PString (extract_language (get_prop cps (js ''className'')))]
       ++ cps(js ''className'' := None)) (js ''code'')
     = (case cps (js ''code'') of None \<Rightarrow> Some (PString v) | Some x \<Rightarrow> Some x)
   \<and> ([js ''code'' \<mapsto> PString v,
        js ''language'' \<mapsto> PString (extract_language (get_prop cps (js ''className'')))]
       ++ cps(js ''className'' := None)) (js ''language'')
     = (case cps (js ''language'') of
          None \<Rightarrow> Some (PString (extract_language (get_prop cps (js ''className''))))
        | Some x \<Rightarrow> Some x)
   \<and> (node_children node = [] \<longrightarrow>
        components_pre children node rest = Inr (PreElement rest children))
   \<and> (node_children node = first # others \<and> (\<forall>ps' ks'. first \<noteq> Element (js ''code'') ps' ks') \<longrightarrow>
        components_pre children node rest = Inr (PreElement rest children))
   \<and> (node_children node = Element (js ''code'') cps (kid # kids) # others \<and> (\<forall>v. kid \<noteq> Text v) \<longrightarrow>
        components_pre children node rest = Inr (PreElement rest children))"
proof -
  have ne: "js ''code'' \<noteq> js ''className''" "js ''language'' \<noteq> js ''className''"
    "js ''code'' \<noteq> js ''language''"
    by (simp_all add: js_def)
  have block: "components_pre children
     (Some (Element t ps (Element (js ''code'') cps (Text v # later) # others))) rest
   = Inr (CodeBlock
            ([js ''code'' \<mapsto> PString v,
              js ''language'' \<mapsto> PString (extract_language (get_prop cps (js ''className'')))]
             ++ cps(js ''className'' := None)))"
    by (simp add: components_pre_def node_children_def)
  have code: "([js ''code'' \<mapsto> PString v,
        js ''language'' \<mapsto> PString (extract_language (get_prop cps (js ''className'')))]
       ++ cps(js ''className'' := None)) (js ''code'')
     = (case cps (js ''code'') of None \<Rightarrow> Some (PString v) | Some x \<Rightarrow> Some x)"
    using ne by (simp add: map_add_def split: option.splits)
  have lang: "([js ''code'' \<mapsto> PString v,
        js ''language'' \<mapsto> PString (extract_language (get_prop cps (js ''className'')))]
       ++ cps(js ''className'' := None)) (js ''language'')
     = (case cps (js ''language'') of
          None \<Rightarrow> Some (PString (extract_language (get_prop cps (js ''className''))))
        | Some x \<Rightarrow> Some x)"
    using ne by (simp add: map_add_def split: option.splits)
  have pass: "(node_children node = [] \<longrightarrow>
        components_pre children node rest = Inr (PreElement rest children))
   \<and> (node_children node = first # others \<and> (\<forall>ps' ks'. first \<noteq> Element (js ''code'') ps' ks') \<longrightarrow>
        components_pre children node rest = Inr (PreElement rest children))
   \<and> (node_children node = Element (js ''code'') cps (kid # kids) # others \<and> (\<forall>v. kid \<noteq> Text v) \<longrightarrow>
        components_pre children node rest = Inr (PreElement rest children))"
    by (auto simp: components_pre_def split: hast_node.splits list.splits)
  from block code lang pass show ?thesis by (intro conjI) blast+
qed

theorem pre_first_child_decides_witness:
  "components_pre (0::nat)
     (Some (Element (js ''pre'') Map.empty
        [Element (js ''code'') [js ''className'' \<mapsto> PStrings [js ''language-ts'']]
           [Text (js ''x = 1''), Text (js ''next'')], Text (js ''tail'')])) (1::nat)
   = Inr (CodeBlock [js ''code'' \<mapsto> PString (js ''x = 1''),
                     js ''language'' \<mapsto> PString (js ''ts'')])
   \<and> ([js ''code'' \<mapsto> PString (js ''x = 1''),
        js ''language'' \<mapsto>
          PString (extract_language
            (get_prop [js ''className'' \<mapsto> PStrings [js ''language-ts''],
                       js ''language'' \<mapsto> PString (js ''zzz'')] (js ''className'')))]
       ++ [js ''className'' \<mapsto> PStrings [js ''language-ts''],
           js ''language'' \<mapsto> PString (js ''zzz'')](js ''className'' := None))
         (js ''language'')
     = Some (PString (js ''zzz''))
   \<and> components_pre (0::nat) (Some (Element (js ''pre'') Map.empty [])) (1::nat)
     = Inr (PreElement 1 0)
   \<and> components_pre (0::nat) (Some (Element (js ''pre'') Map.empty [Text (js ''x'')])) (1::nat)
     = Inr (PreElement 1 0)
   \<and> components_pre (0::nat)
       (Some (Element (js ''pre'') Map.empty
          [Element (js ''code'') Map.empty [Element (js ''span'') Map.empty []]])) (1::nat)
     = Inr (PreElement 1 0)"
proof -
  let ?cps = "[js ''className'' \<mapsto> PStrings [js ''language-ts'']]"
  let ?cps' = "[js ''className'' \<mapsto> PStrings [js ''language-ts''],
               js ''language'' \<mapsto> PString (js ''zzz'')]"
  have ne: "js ''language'' \<noteq> js ''className''" by (simp add: js_def)
  have l: "extract_language (get_prop ?cps (js ''className'')) = js ''ts''"
    by (simp add: get_prop_def extract_language_def js_def is_word_char_def comma_def)
  have r: "?cps(js ''className'' := None) = Map.empty" by simp
  have z: "?cps' (js ''language'') = Some (PString (js ''zzz''))" by simp
  note a = pre_first_child_decides [of "0::nat" "js ''pre''" Map.empty ?cps "js ''x = 1''" "[Text (js ''next'')]"
      "[Text (js ''tail'')]" "1::nat" "Some (Element (js ''pre'') Map.empty [])"]
  note b = pre_first_child_decides [where children = "0::nat" and rest = "1::nat"
        and node = "Some (Element (js ''pre'') Map.empty [Text (js ''x'')])"
        and first = "Text (js ''x'')" and others = "[]"]
  note c = pre_first_child_decides [where children = "0::nat" and rest = "1::nat"
        and node = "Some (Element (js ''pre'') Map.empty
          [Element (js ''code'') Map.empty [Element (js ''span'') Map.empty []]])"
        and cps = Map.empty and kid = "Element (js ''span'') Map.empty []" and kids = "[]" and others = "[]"]
  note d = pre_first_child_decides [where cps = ?cps' and v = "js ''x = 1''",
      THEN conjunct2, THEN conjunct2, THEN conjunct1]
  from d have 2: "([js ''code'' \<mapsto> PString (js ''x = 1''),
        js ''language'' \<mapsto> PString (extract_language (get_prop ?cps' (js ''className'')))]
       ++ ?cps'(js ''className'' := None)) (js ''language'')
     = Some (PString (js ''zzz''))"
    by (simp only: z option.case)
  from a have 1: "components_pre (0::nat)
     (Some (Element (js ''pre'') Map.empty
        [Element (js ''code'') ?cps
           [Text (js ''x = 1''), Text (js ''next'')], Text (js ''tail'')])) (1::nat)
   = Inr (CodeBlock [js ''code'' \<mapsto> PString (js ''x = 1''),
                     js ''language'' \<mapsto> PString (js ''ts'')])"
    by (simp add: l r)
  from a have 3: "components_pre (0::nat) (Some (Element (js ''pre'') Map.empty [])) (1::nat)
     = Inr (PreElement 1 0)"
    by (simp add: node_children_def)
  from b have 4: "components_pre (0::nat) (Some (Element (js ''pre'') Map.empty [Text (js ''x'')])) (1::nat)
     = Inr (PreElement 1 0)"
    by (simp add: node_children_def)
  from c have 5: "components_pre (0::nat)
       (Some (Element (js ''pre'') Map.empty
          [Element (js ''code'') Map.empty [Element (js ''span'') Map.empty []]])) (1::nat)
     = Inr (PreElement 1 0)"
    by (simp add: node_children_def)
  from 1 2 3 4 5 show ?thesis by (intro conjI)
qed

section \<open>Properties of the button override\<close>

lemma unknown_type_no_dispatch:
  assumes "qa_type qa \<noteq> PString (js ''file'')" "qa_type qa \<noteq> PString (js ''message'')"
    "qa_type qa \<noteq> PString (js ''implement'')" "qa_type qa \<noteq> PString (js ''link'')"
  shows "onClick env parse_url now qa = []"
  using assms by (simp add: onClick_def)

lemma unknown_type_question_icon:
  assumes "safeType type \<notin> set [js ''file'', js ''message'', js ''implement'', js ''link'']"
    and "safeType type \<notin> set object_prototype_members"
  shows "iconClass type = IconString (js ''i-ph:question'')"
  using assms by (simp add: iconClass_def iconClassMap_def)

lemma non_string_type_question_icon:
  assumes "\<forall>s. type \<noteq> PString s"
  shows "iconClass type = IconString (js ''i-ph:question'')"
proof -
  from assms have "safeType type = []" by (cases type) (auto simp: safeType_def)
  then show ?thesis 
    by (simp add: iconClass_def iconClassMap_def object_prototype_members_def js_def)
qed

text \<open>
  Claim C8. Every quick-action button whose type is not one of the four known types is
  claimed to show the question icon. The lookup table is an object literal, so a type
  that names a member of \<^verbatim>\<open>Object.prototype\<close> finds that member: for the type
  \<^verbatim>\<open>constructor\<close> the icon value is the inherited constructor, not the string
  \<^verbatim>\<open>i-ph:question\<close>.
\<close>

theorem constructor_type_icon:
  "components_button
     (Some (Element (js ''button'')
        [js ''dataBoltQuickAction'' \<mapsto> PString (js ''true''),
         js ''dataType'' \<mapsto> PString (js ''constructor'')] kids))
     children props
   = QuickActionButton
       \<lparr> qa_type = PString (js ''constructor''), qa_message = PUndefined,
         qa_path = PUndefined, qa_href = PUndefined \<rparr>
       (InheritedMember (js ''constructor'')) children
   \<and> iconClass (PString (js ''constructor'')) \<noteq> IconString (js ''i-ph:question'')"
  by (simp add: components_button_def node_properties_def is_quick_action_def get_prop_def
      read_quick_action_def js_or_def iconClass_def iconClassMap_def safeType_def
      object_prototype_members_def js_def)

text \<open>
  Claim C10. For a quick-action button of type \<^verbatim>\<open>message\<close> with \<^verbatim>\<open>append\<close> supplied,
  or of type \<^verbatim>\<open>implement\<close> with \<^verbatim>\<open>append\<close> and \<^verbatim>\<open>setChatMode\<close> supplied, the click
  handler appends exactly one message; its role is \<^verbatim>\<open>user\<close> and its text is the
  model line, a blank line, the provider line, a blank line and then the message
  attribute, which is never the message attribute alone.
\<close>

theorem quick_action_message_text:
  assumes "qa_type qa = PString (js ''message'') \<and> has_append env
           \<or> qa_type qa = PString (js ''implement'') \<and> has_append env \<and> has_setChatMode env"
  shows "\<exists>m. appended_messages (onClick env parse_url now qa) = [m]
           \<and> msg_role m = js ''user''
           \<and> msg_text m =
               js ''[Model: '' @ opt_String (model_name env) @ js '']'' @ [newline, newline]
               @ js ''[Provider: '' @ opt_String (provider_name env) @ js '']''
               @ [newline, newline] @ to_String (qa_message qa)
           \<and> msg_text m \<noteq> to_String (qa_message qa)"
proof -
  have ne: "js ''file'' \<noteq> js ''message''" "js ''file'' \<noteq> js ''implement''"
    "js ''message'' \<noteq> js ''implement''"
    by (simp_all add: js_def)
  have longer: "annotated_text env msg \<noteq> to_String msg" for msg
    by (simp add: annotated_text_def js_def)
  from assms show ?thesis
  proof
    assume "qa_type qa = PString (js ''message'') \<and> has_append env"
    then show ?thesis using ne longer [of "qa_message qa"]
      by (simp add: onClick_def) (simp add: annotated_text_def)
  next
    assume "qa_type qa = PString (js ''implement'') \<and> has_append env \<and> has_setChatMode env"
    then show ?thesis using ne longer [of "qa_message qa"]
      by (simp add: onClick_def) (simp add: annotated_text_def)
  qed
qed

theorem quick_action_message_text_witness:
  "appended_messages
     (onClick \<lparr> has_append = True, has_setChatMode = True, model_name = Some (js ''gpt''),
                provider_name = None \<rparr>
        (\<lambda>href. None) 1700000000000
        \<lparr> qa_type = PString (js ''implement''), qa_message = PString (js ''Add tests''),
          qa_path = PUndefined, qa_href = PUndefined \<rparr>)
   = [\<lparr> msg_id = js ''quick-action-implement-1700000000000'',
        msg_text = js ''[Model: gpt]'' @ [newline, newline] @ js ''[Provider: undefined]''
                   @ [newline, newline] @ js ''Add tests'',
        msg_role = js ''user'' \<rparr>]
   \<and> appended_messages
     (onClick \<lparr> has_append = True, has_setChatMode = False, model_name = None,
                provider_name = Some (js ''OpenAI'') \<rparr>
        (\<lambda>href. None) 1700000000000
        \<lparr> qa_type = PString (js ''message''), qa_message = PString (js ''Explain''),
          qa_path = PUndefined, qa_href = PUndefined \<rparr>)
   = [\<lparr> msg_id = js ''quick-action-message-1700000000000'',
        msg_text = js ''[Model: undefined]'' @ [newline, newline] @ js ''[Provider: OpenAI]''
                   @ [newline, newline] @ js ''Explain'',
        msg_role = js ''user'' \<rparr>]"
proof -
  let ?env = "\<lparr> has_append = True, has_setChatMode = True, model_name = Some (js ''gpt''),
                provider_name = None \<rparr>"
  let ?qa = "\<lparr> qa_type = PString (js ''implement''), qa_message = PString (js ''Add tests''),
          qa_path = PUndefined, qa_href = PUndefined \<rparr>"
  let ?env' = "\<lparr> has_append = True, has_setChatMode = False, model_name = None,
                provider_name = Some (js ''OpenAI'') \<rparr>"
  let ?qa' = "\<lparr> qa_type = PString (js ''message''), qa_message = PString (js ''Explain''),
          qa_path = PUndefined, qa_href = PUndefined \<rparr>"
  have h: "qa_type ?qa = PString (js ''message'') \<and> has_append ?env
           \<or> qa_type ?qa = PString (js ''implement'') \<and> has_append ?env \<and> has_setChatMode ?env"
    by simp
  have h': "qa_type ?qa' = PString (js ''message'') \<and> has_append ?env'
           \<or> qa_type ?qa' = PString (js ''implement'') \<and> has_append ?env' \<and> has_setChatMode ?env'"
    by simp
  have d: "decimal 1700000000000 = js ''1700000000000''"
    by (simp add: decimal.simps js_def)
  have o: "onClick ?env (\<lambda>href. None) 1700000000000 ?qa =
     [SetChatMode Build,
      Append \<lparr> msg_id = js ''quick-action-implement-'' @ js ''1700000000000'',
               msg_text = annotated_text ?env (PString (js ''Add tests'')),
               msg_role = js ''user'' \<rparr>]"
    unfolding d [symmetric] by (simp add: onClick_def js_def)
  have o': "onClick ?env' (\<lambda>href. None) 1700000000000 ?qa' =
     [Append \<lparr> msg_id = js ''quick-action-message-'' @ js ''1700000000000'',
               msg_text = annotated_text ?env' (PString (js ''Explain'')),
               msg_role = js ''user'' \<rparr>,
      ConsoleLog]"
    unfolding d [symmetric] by (simp add: onClick_def js_def)
  from quick_action_message_text [OF h, of "\<lambda>href. None" 1700000000000]
  have 1: "appended_messages (onClick ?env (\<lambda>href. None) 1700000000000 ?qa)
     = [\<lparr> msg_id = js ''quick-action-implement-1700000000000'',
        msg_text = js ''[Model: gpt]'' @ [newline, newline] @ js ''[Provider: undefined]''
                   @ [newline, newline] @ js ''Add tests'',
        msg_role = js ''user'' \<rparr>]"
    unfolding o by (simp add: annotated_text_def opt_String_def js_def)
  from quick_action_message_text [OF h', of "\<lambda>href. None" 1700000000000]
  have 2: "appended_messages (onClick ?env' (\<lambda>href. None) 1700000000000 ?qa')
     = [\<lparr> msg_id = js ''quick-action-message-1700000000000'',
        msg_text = js ''[Model: undefined]'' @ [newline, newline] @ js ''[Provider: OpenAI]''
                   @ [newline, newline] @ js ''Explain'',
        msg_role = js ''user'' \<rparr>]"
    unfolding o' by (simp add: annotated_text_def opt_String_def js_def)
  from 1 2 show ?thesis by (rule conjI)
qed

section \<open>Properties of HistoryItem\<close>

lemmas handler_defs =
  handleItemClick_def handleCheckboxChange_def handleDeleteClick_def exportClick_def
  duplicateClick_def renameClick_def onToggleSelection_def preventDefault_def
  stopPropagation_def

lemmas tree_defs = HistoryItem_def ChatActionButton_def row_onClick_def

lemmas target_defs =
  anchor_target_def action_button_def export_button_def duplicate_button_def
  rename_button_def delete_button_def anchor_targets_def

lemma action_button_elements:
  "target_element (HistoryItem p False) (export_button p) = Some (ButtonTag, Some ExportClick)"
  "has_onDuplicate p \<Longrightarrow>
     target_element (HistoryItem p False) (duplicate_button p) = Some (ButtonTag, Some DuplicateClick)"
  "target_element (HistoryItem p False) (rename_button p) = Some (ButtonTag, Some RenameClick)"
  "target_element (HistoryItem p False) (delete_button p) = Some (ButtonTag, Some HandleDeleteClick)"
  by (simp_all add: target_element_def tree_defs target_defs)

lemma anchor_target_elements:
  "map (target_element (HistoryItem p False)) (anchor_targets p) =
     [Some (AnchorTag (item_href p), row_onClick p), Some (WithTooltip, None),
      Some (SpanTag, None), Some (DivTag, None), Some (DivTag, None)]"
  by (simp add: target_element_def tree_defs target_defs)

lemma action_click_normal_mode:
  assumes "\<not> selectionMode p"
  shows "click p (HistoryItem p False) (export_button p) = Some [ExportChat (item_id p)]"
    and "has_onDuplicate p \<Longrightarrow>
         click p (HistoryItem p False) (duplicate_button p) = Some [Duplicate (item_id p)]"
    and "click p (HistoryItem p False) (rename_button p) = Some [ToggleEditMode]"
  using assms by (simp_all add: click_def tree_defs target_defs handler_defs default_action_def)

lemma delete_click:
  "click p (HistoryItem p False) (delete_button p) = Some (if has_onDelete p then [Delete] else [])"
  by (simp add: click_def tree_defs target_defs handler_defs default_action_def)

text \<open>
  Claim C1. The click handlers of the export, duplicate and rename buttons are claimed
  to stop propagation, so that they never trigger the selection toggle. They only
  prevent the default action: for an item in selection mode, with the toggle-selection
  callback supplied and not being renamed, a click on any of the three buttons bubbles
  to the anchor, whose handler calls the callback.
\<close>

theorem action_click_toggles_selection:
  "(let q = p\<lparr>selectionMode := True, has_onToggleSelection := True, has_onDuplicate := True\<rparr>
    in click q (HistoryItem q False) (export_button q)
         = Some [ExportChat (item_id p), ToggleSelection (item_id p)]
       \<and> click q (HistoryItem q False) (duplicate_button q)
         = Some [Duplicate (item_id p), ToggleSelection (item_id p)]
       \<and> click q (HistoryItem q False) (rename_button q)
         = Some [ToggleEditMode, ToggleSelection (item_id p)])
   \<and> propagationStopped (fst (exportClick p e)) = propagationStopped e
   \<and> propagationStopped (fst (duplicateClick p e)) = propagationStopped e
   \<and> propagationStopped (fst (renameClick p e)) = propagationStopped e"
  by (simp add: click_def tree_defs target_defs handler_defs default_action_def)

text \<open>
  Claim C3. For an item that is not being renamed: in selection mode with the
  toggle-selection callback supplied, a click on the row outside the checkbox and the
  action buttons (the row itself, the anchor, the description with its tooltip
  wrapper, the containers of the action buttons) calls the callback exactly once and
  does not navigate. Outside selection mode a click on the anchor or inside it
  navigates to the chat of the item and calls nothing else; a click on the padding of
  the row, outside the anchor, does nothing.
\<close>

theorem row_click:
  "(selectionMode p \<and> has_onToggleSelection p \<longrightarrow>
      (\<forall>t \<in> set ([] # anchor_targets p).
         click p (HistoryItem p False) t = Some [ToggleSelection (item_id p)]))
   \<and> (\<not> selectionMode p \<longrightarrow>
      (\<forall>t \<in> set (anchor_targets p).
         click p (HistoryItem p False) t = Some [Navigate (item_href p)])
      \<and> click p (HistoryItem p False) [] = Some [])"
  by (simp add: click_def tree_defs target_defs handler_defs default_action_def)

theorem row_click_witness:
  "selectionMode (sample_item True) \<and> has_onToggleSelection (sample_item True)
   \<and> [1, 0, 0] \<in> set ([] # anchor_targets (sample_item True))
   \<and> click (sample_item True) (HistoryItem (sample_item True) False) [1, 0, 0]
     = Some [ToggleSelection (js ''7'')]
   \<and> \<not> selectionMode (sample_item False)
   \<and> [0, 0, 0] \<in> set (anchor_targets (sample_item False))
   \<and> click (sample_item False) (HistoryItem (sample_item False) False) [0, 0, 0]
     = Some [Navigate (js ''/chat/seven'')]"
proof -
  have sel: "selectionMode (sample_item True) \<and> has_onToggleSelection (sample_item True)"
    and nsel: "\<not> selectionMode (sample_item False)"
    by (simp_all add: sample_item_def)
  have t1: "[1, 0, 0] \<in> set ([] # anchor_targets (sample_item True))"
    and t2: "[0, 0, 0] \<in> set (anchor_targets (sample_item False))"
    by (simp_all add: sample_item_def target_defs)
  have ids: "item_id (sample_item True) = js ''7''"
    "item_href (sample_item False) = js ''/chat/seven''"
    by (simp_all add: sample_item_def item_href_def js_def)
  from row_click [of "sample_item True"] sel t1
  have 1: "click (sample_item True) (HistoryItem (sample_item True) False) [1, 0, 0]
           = Some [ToggleSelection (item_id (sample_item True))]"
    by blast
  from row_click [of "sample_item False"] nsel t2
  have 2: "click (sample_item False) (HistoryItem (sample_item False) False) [0, 0, 0]
           = Some [Navigate (item_href (sample_item False))]"
    by blast
  from 1 2 sel nsel t1 t2 show ?thesis by (simp only: ids simp_thms)
qed

end
